theory Spec2Isabelle
  imports Main
begin

section \<open>Values, errors and promises\<close>

text \<open>
  The store of \<^verbatim>\<open>createInMemoryStore\<close> holds a value of a generic type \<^verbatim>\<open>T\<close>, and
  \<^verbatim>\<open>get()\<close> tests it with JavaScript's truthiness. The values are therefore modelled
  as JavaScript values: the primitives with their falsy members, and objects by a
  reference (always truthy). Numbers are integers and \<open>JNaN\<close>; only the test against
  zero and NaN matters to the store.
\<close>

datatype jsval =
    JUndefined
  | JNull
  | JBool bool
  | JNum int
  | JNaN
  | JStr string
  | JObj nat

fun truthy :: "jsval \<Rightarrow> bool" where
  "truthy JUndefined = False"
| "truthy JNull = False"
| "truthy (JBool b) = b"
| "truthy (JNum n) = (n \<noteq> 0)"
| "truthy JNaN = False"
| "truthy (JStr s) = (s \<noteq> [])"
| "truthy (JObj r) = True"

text \<open>A thrown value is an \<^verbatim>\<open>Error\<close> object, known by its message.\<close>

datatype error = JsError string

text \<open>A \<^verbatim>\<open>Date\<close>, in milliseconds since the epoch.\<close>

type_synonym date = nat

datatype 'a promise = Pending | Fulfilled 'a | Rejected error

text \<open>
  How a call of \<^verbatim>\<open>definition.refresh\<close> settles: its promise is fulfilled with
  \<^verbatim>\<open>{lastModified, store}\<close> or with \<^verbatim>\<open>"not_modified"\<close>, or it is rejected. The operation is
  asynchronous, as its type \<^verbatim>\<open>Promise<...>\<close> says, and a failure is a rejected promise;
  but nothing keeps the function from throwing before it has returned its promise. In
  \<^verbatim>\<open>refresh\<close> the call stands inside \<^verbatim>\<open>try\<close>, so that there such an exception has the
  effect of a rejection (\<open>Throws\<close>). The first call, in the promise's executor, is not
  guarded: \<open>call_result\<close> says whether it returned its promise or threw.
\<close>

datatype outcome =
    Fresh "date option" jsval
  | NotModified
  | Throws error

datatype call_result = ReturnsPromise | ThrowsSync error

section \<open>The store definition and the durable cache\<close>

text \<open>
  \<^verbatim>\<open>StoreDefinition\<close> without its \<^verbatim>\<open>refresh\<close> field: the fetch operation belongs to the
  environment, and each of its results is an event of the store (below). An optional
  field is an \<open>option\<close>.
\<close>

record StoreDefinition =
  refreshIntervalMillis :: int
  name :: string
  serializer :: "(jsval \<Rightarrow> error + string) option"
  deserializer :: "(string \<Rightarrow> error + jsval) option"
  localDir :: "string option"

text \<open>
  What the runtime and the imported libraries answer when a callback of the store runs:
  the synchronous calls of Node's \<^verbatim>\<open>fs\<close> module and the built-in \<^verbatim>\<open>JSON\<close>, each of which
  may throw (\<open>Inl\<close>, or \<open>Some\<close> for \<^verbatim>\<open>mkdirSync\<close>, which returns nothing of use), and
  \<^verbatim>\<open>getErrorMessage\<close> of the package \<^verbatim>\<open>juava\<close>, whose source is not at hand: it is a
  parameter, some function from thrown values to strings.
\<close>

record node =
  mkdirSync :: "string \<Rightarrow> error option"
  readFileSync :: "string \<Rightarrow> error + string"
  statSync_mtime :: "string \<Rightarrow> error + date"
  JSON_stringify :: "jsval \<Rightarrow> error + string"
  JSON_parse :: "string \<Rightarrow> error + jsval"
  getErrorMessage :: "error \<Rightarrow> string"

text \<open>\<^verbatim>\<open>path.join(a, b)\<close>, without the normalisation of the result.\<close>

definition path_join :: "string \<Rightarrow> string \<Rightarrow> string" where
  "path_join a b = a @ ''/'' @ b"

definition cacheFile :: "StoreDefinition \<Rightarrow> string \<Rightarrow> string" where
  "cacheFile defn dir = path_join dir (name defn @ ''-latest.json'')"

text \<open>
  \<^verbatim>\<open>if (definition.localDir)\<close>: the directory is configured when the field is set and
  not the empty string.
\<close>

definition configuredDir :: "StoreDefinition \<Rightarrow> string option" where
  "configuredDir defn =
     (case localDir defn of
        None \<Rightarrow> None
      | Some dir \<Rightarrow> if dir = [] then None else Some dir)"

text \<open>
  \<^verbatim>\<open>saveLocalCache\<close>. \<open>Inl e\<close>: the call throws \<open>e\<close> (from \<^verbatim>\<open>mkdirSync\<close> or from the
  serializer; nothing in the function catches them). \<open>Inr w\<close>: the call returns, and
  \<open>w\<close> is the file and text handed to the asynchronous \<^verbatim>\<open>fs.writeFile\<close>, or \<open>None\<close>
  when no directory is configured.
\<close>

definition saveLocalCache ::
  "node \<Rightarrow> StoreDefinition \<Rightarrow> jsval \<Rightarrow> error + (string \<times> string) option" where
  "saveLocalCache fs defn inst =
     (case configuredDir defn of
        None \<Rightarrow> Inr None
      | Some dir \<Rightarrow>
          (case mkdirSync fs dir of
             Some e \<Rightarrow> Inl e
           | None \<Rightarrow>
               (case (case serializer defn of
                        Some f \<Rightarrow> f inst
                      | None \<Rightarrow> JSON_stringify fs inst) of
                  Inl e \<Rightarrow> Inl e
                | Inr serialized \<Rightarrow> Inr (Some (cacheFile defn dir, serialized)))))"

text \<open>
  \<^verbatim>\<open>loadFromCache\<close>: the snapshot's modification time and value, or \<open>None\<close> for
  \<^verbatim>\<open>undefined\<close>. Everything that throws inside the \<^verbatim>\<open>try\<close> is logged and ends in
  \<^verbatim>\<open>undefined\<close>.
\<close>

definition loadFromCache :: "node \<Rightarrow> StoreDefinition \<Rightarrow> (date \<times> jsval) option" where
  "loadFromCache fs defn =
     (case configuredDir defn of
        None \<Rightarrow> None
      | Some dir \<Rightarrow>
          (case readFileSync fs (cacheFile defn dir) of
             Inl e \<Rightarrow> None
           | Inr cached \<Rightarrow>
               (case statSync_mtime fs (cacheFile defn dir) of
                  Inl e \<Rightarrow> None
                | Inr mtime \<Rightarrow>
                    (case (case deserializer defn of
                             Some f \<Rightarrow> f cached
                           | None \<Rightarrow> JSON_parse fs cached) of
                       Inl e \<Rightarrow> None
                     | Inr v \<Rightarrow> Some (mtime, v)))))"

section \<open>The store\<close>

datatype status = Ok | Initializing | Outdated | Failed | Stopped

text \<open>
  Where the cold load stands: the first \<^verbatim>\<open>definition.refresh()\<close> has not settled; or
  the \<^verbatim>\<open>.catch\<close> callback is queued with the error it will receive; or the cold load
  is over.
\<close>

datatype cold_phase = Fetching | Catching error | Settled

text \<open>The two places that call \<^verbatim>\<open>definition.refresh\<close>.\<close>

datatype call_site = ColdLoad | Scheduled

text \<open>
  The variables of the closure (\<open>status\<close> to \<open>intervalToClear\<close>, which is true when a
  timer handle is stored), \<open>instancePromise\<close>, and what the event loop holds for the
  store: the cold load's phase, whether the \<^verbatim>\<open>setInterval\<close> timer is armed, the number
  of \<^verbatim>\<open>setTimeout\<close> callbacks waiting, the number of \<^verbatim>\<open>refresh()\<close> calls waiting for
  their fetch, and the number of loop callbacks whose \<^verbatim>\<open>await refresh()\<close> has finished
  but which have not yet called \<^verbatim>\<open>loop()\<close> again. \<open>fetch_calls\<close> records each call of
  \<^verbatim>\<open>definition.refresh\<close> with its argument, oldest first.
\<close>

record store =
  status :: status
  instance_val :: jsval
  lastRefresh :: "date option"
  lastModified :: "date option"
  stopping :: bool
  intervalToClear :: bool
  instancePromise :: "jsval promise"
  cold :: cold_phase
  interval_active :: bool
  timeouts :: nat
  in_flight :: nat
  loop_waiting :: nat
  fetch_calls :: "(call_site \<times> date option) list"

text \<open>The function \<^verbatim>\<open>loop\<close> of \<^verbatim>\<open>scheduleStoreRefresh\<close>, up to its \<^verbatim>\<open>setTimeout\<close>.\<close>

definition loop :: "store \<Rightarrow> store" where
  "loop s = (if stopping s then s else s\<lparr>timeouts := timeouts s + 1\<rparr>)"

definition scheduleStoreRefresh :: "StoreDefinition \<Rightarrow> store \<Rightarrow> store" where
  "scheduleStoreRefresh defn s =
     (if refreshIntervalMillis defn > 0
      then s\<lparr>intervalToClear := True, interval_active := True\<rparr>
      else loop s)"

text \<open>
  The closure \<^verbatim>\<open>refresh\<close>, in two parts: up to its \<^verbatim>\<open>await\<close> it calls
  \<^verbatim>\<open>definition.refresh(lastModified)\<close>; when that call settles with \<open>res\<close> it resumes,
  at time \<open>now\<close>.
\<close>

definition refresh_call :: "store \<Rightarrow> store" where
  "refresh_call s =
     s\<lparr>fetch_calls := fetch_calls s @ [(Scheduled, lastModified s)],
       in_flight := in_flight s + 1\<rparr>"

definition refresh_resume ::
  "StoreDefinition \<Rightarrow> node \<Rightarrow> date \<Rightarrow> outcome \<Rightarrow> store \<Rightarrow> store" where
  "refresh_resume defn fs now res s =
     (case res of
        Throws e \<Rightarrow> s\<lparr>status := Outdated\<rparr>
      | NotModified \<Rightarrow> s\<lparr>status := Ok, lastRefresh := Some now\<rparr>
      | Fresh lm v \<Rightarrow>
          (case saveLocalCache fs defn v of
             Inl e \<Rightarrow> s\<lparr>status := Outdated\<rparr>
           | Inr w \<Rightarrow>
               (case lm of
                  Some m \<Rightarrow> s\<lparr>lastModified := Some m\<rparr>
                | None \<Rightarrow> s)
               \<lparr>instance_val := v, status := Ok, lastRefresh := Some now\<rparr>))"

text \<open>
  The cold load. \<open>cold_then\<close> is what happens when the first \<^verbatim>\<open>definition.refresh()\<close>
  settles: a rejection passes the \<^verbatim>\<open>.then\<close> callback by and reaches \<^verbatim>\<open>.catch\<close>;
  otherwise the \<^verbatim>\<open>.then\<close> callback runs, and what it throws reaches \<^verbatim>\<open>.catch\<close> too,
  with the assignments made so far kept. \<open>cold_catch\<close> is the \<^verbatim>\<open>.catch\<close> callback.
\<close>

definition cold_then ::
  "StoreDefinition \<Rightarrow> node \<Rightarrow> date \<Rightarrow> outcome \<Rightarrow> store \<Rightarrow> store" where
  "cold_then defn fs now res s =
     (case res of
        Throws e \<Rightarrow> s\<lparr>cold := Catching e\<rparr>
      | NotModified \<Rightarrow>
          s\<lparr>cold := Catching (JsError ''Not modified. (must never happen on first load)'')\<rparr>
      | Fresh lm v \<Rightarrow>
          (case saveLocalCache fs defn v of
             Inl e \<Rightarrow> s\<lparr>lastModified := lm, instance_val := v, cold := Catching e\<rparr>
           | Inr w \<Rightarrow>
               (scheduleStoreRefresh defn
                  (s\<lparr>lastModified := lm, instance_val := v, status := Ok,
                     lastRefresh := Some now\<rparr>))
               \<lparr>instancePromise := Fulfilled v, cold := Settled\<rparr>))"

definition init_failure :: "StoreDefinition \<Rightarrow> node \<Rightarrow> error \<Rightarrow> error" where
  "init_failure defn fs e =
     JsError (''Failed to initialize store '' @ name defn @ ''. Initial load failed with ''
              @ getErrorMessage fs e @ '' and no local cache found'')"

definition cold_catch :: "StoreDefinition \<Rightarrow> node \<Rightarrow> error \<Rightarrow> store \<Rightarrow> store" where
  "cold_catch defn fs e s =
     (case loadFromCache fs defn of
        None \<Rightarrow>
          s\<lparr>status := Failed, instancePromise := Rejected (init_failure defn fs e),
            cold := Settled\<rparr>
      | Some cachedInstance \<Rightarrow>
          (scheduleStoreRefresh defn
             (s\<lparr>instance_val := snd cachedInstance, lastRefresh := Some (fst cachedInstance),
                status := Outdated\<rparr>))
          \<lparr>instancePromise := Fulfilled (snd cachedInstance), cold := Settled\<rparr>)"

text \<open>
  \<^verbatim>\<open>createInMemoryStore\<close> up to its \<^verbatim>\<open>return\<close>: the variables' initial values, and the
  promise's executor has called \<^verbatim>\<open>definition.refresh()\<close> with no argument. When that call
  returned its promise, \<^verbatim>\<open>.then\<close> and \<^verbatim>\<open>.catch\<close> are attached and the cold load is under
  way. When it threw \<open>e\<close>, the executor threw: the constructor of the promise rejects
  \<^verbatim>\<open>instancePromise\<close> with \<open>e\<close> itself, no callback is attached, and the cold load is
  over with the status left at \<open>Initializing\<close>.
\<close>

definition createInMemoryStore :: "StoreDefinition \<Rightarrow> call_result \<Rightarrow> store" where
  "createInMemoryStore defn first =
     (case first of
        ReturnsPromise \<Rightarrow>
          \<lparr>status = Initializing, instance_val = JUndefined, lastRefresh = None,
           lastModified = None, stopping = False, intervalToClear = False,
           instancePromise = Pending, cold = Fetching, interval_active = False,
           timeouts = 0, in_flight = 0, loop_waiting = 0,
           fetch_calls = [(ColdLoad, None)]\<rparr>
      | ThrowsSync e \<Rightarrow>
          \<lparr>status = Initializing, instance_val = JUndefined, lastRefresh = None,
           lastModified = None, stopping = False, intervalToClear = False,
           instancePromise = Rejected e, cold = Settled, interval_active = False,
           timeouts = 0, in_flight = 0, loop_waiting = 0,
           fetch_calls = [(ColdLoad, None)]\<rparr>)"

subsection \<open>The methods of the returned object\<close>

text \<open>
  \<^verbatim>\<open>get()\<close> returns a promise: a new one, already fulfilled with the current value, or
  the one promise \<^verbatim>\<open>instancePromise\<close>. \<open>settled_as\<close> is the state in which a caller finds
  the promise it was given.
\<close>

datatype promise_ref = PromiseResolve jsval | InstancePromise

definition get :: "store \<Rightarrow> promise_ref" where
  "get s = (if truthy (instance_val s) then PromiseResolve (instance_val s) else InstancePromise)"

fun settled_as :: "store \<Rightarrow> promise_ref \<Rightarrow> jsval promise" where
  "settled_as s (PromiseResolve v) = Fulfilled v"
| "settled_as s InstancePromise = instancePromise s"

definition getCurrent :: "store \<Rightarrow> jsval" where
  "getCurrent s = instance_val s"

definition stop :: "store \<Rightarrow> store" where
  "stop s =
     (if intervalToClear s
      then s\<lparr>stopping := True, interval_active := False, status := Stopped\<rparr>
      else s\<lparr>stopping := True, status := Stopped\<rparr>)"

subsection \<open>Events\<close>

text \<open>
  Everything that runs code of the store after its construction, one event per callback
  or method call, each atomic as JavaScript runs it:
  \<^item> \<open>ColdSettled res fs now\<close>: the first fetch settles with \<open>res\<close>;
  \<^item> \<open>ColdCatch fs\<close>: the queued \<^verbatim>\<open>.catch\<close> callback runs;
  \<^item> \<open>IntervalTick\<close>: the \<^verbatim>\<open>setInterval\<close> callback starts (it returns at once when
    \<open>stopping\<close>, and calls \<^verbatim>\<open>refresh()\<close> otherwise);
  \<^item> \<open>TimeoutFire\<close>: a \<^verbatim>\<open>setTimeout\<close> callback of \<^verbatim>\<open>loop\<close> starts and calls \<^verbatim>\<open>refresh()\<close>;
  \<^item> \<open>RefreshSettled res fs now\<close>: the fetch of a waiting \<^verbatim>\<open>refresh()\<close> settles and the
    closure resumes;
  \<^item> \<open>LoopResume\<close>: a loop callback resumes after its \<^verbatim>\<open>await refresh()\<close> and calls
    \<^verbatim>\<open>loop()\<close>;
  \<^item> \<open>Stop\<close>, \<open>Get\<close>: a caller calls \<^verbatim>\<open>stop()\<close>, \<^verbatim>\<open>get()\<close>;
  \<^item> \<open>WriteFileDone err\<close>: the callback of \<^verbatim>\<open>fs.writeFile\<close> runs; it only logs.
  The runtime's answers and the clock are the event's parameters. An event that cannot
  occur in a state (no timer armed, no fetch waiting) leaves the state as it is.
\<close>

datatype event =
    ColdSettled outcome node date
  | ColdCatch node
  | IntervalTick
  | TimeoutFire
  | RefreshSettled outcome node date
  | LoopResume
  | Stop
  | Get
  | WriteFileDone "error option"

fun step :: "StoreDefinition \<Rightarrow> event \<Rightarrow> store \<Rightarrow> store" where
  "step defn (ColdSettled res fs now) s =
     (if cold s = Fetching then cold_then defn fs now res s else s)"
| "step defn (ColdCatch fs) s =
     (case cold s of
        Catching e \<Rightarrow> cold_catch defn fs e s
      | Fetching \<Rightarrow> s
      | Settled \<Rightarrow> s)"
| "step defn IntervalTick s =
     (if interval_active s
      then (if stopping s then s else refresh_call s)
      else s)"
| "step defn TimeoutFire s =
     (if 0 < timeouts s
      then refresh_call (s\<lparr>timeouts := timeouts s - 1\<rparr>)
      else s)"
| "step defn (RefreshSettled res fs now) s =
     (if 0 < in_flight s
      then (let s' = (refresh_resume defn fs now res s)\<lparr>in_flight := in_flight s - 1\<rparr>
            in if refreshIntervalMillis defn > 0 then s'
               else s'\<lparr>loop_waiting := loop_waiting s' + 1\<rparr>)
      else s)"
| "step defn LoopResume s =
     (if 0 < loop_waiting s
      then loop (s\<lparr>loop_waiting := loop_waiting s - 1\<rparr>)
      else s)"
| "step defn Stop s = stop s"
| "step defn Get s = s"
| "step defn (WriteFileDone err) s = s"

fun exec :: "StoreDefinition \<Rightarrow> event list \<Rightarrow> store \<Rightarrow> store" where
  "exec defn [] s = s"
| "exec defn (e # es) s = exec defn es (step defn e s)"

definition run :: "StoreDefinition \<Rightarrow> call_result \<Rightarrow> event list \<Rightarrow> store" where
  "run defn first es = exec defn es (createInMemoryStore defn first)"

section \<open>The profile id hash\<close>

definition idHash32MaxValue :: int where
  "idHash32MaxValue = 2147483647"

text \<open>
  \<^verbatim>\<open>hash(algorithm, value)\<close> is \<^verbatim>\<open>createHash(algorithm).update(value).digest("hex")\<close> of
  Node's \<^verbatim>\<open>crypto\<close> module. The digest is the parameter \<open>hex_digest\<close>; what Node promises
  of it for SHA-256 is \<open>is_sha256_hex\<close>: 64 lower-case hexadecimal digits.
\<close>

definition hash :: "(string \<Rightarrow> string \<Rightarrow> string) \<Rightarrow> string \<Rightarrow> string \<Rightarrow> string" where
  "hash hex_digest algorithm v = hex_digest algorithm v"

definition is_sha256_hex :: "string \<Rightarrow> bool" where
  "is_sha256_hex h = (length h = 64 \<and> list_all (\<lambda>c. c \<in> set ''0123456789abcdef'') h)"

text \<open>
  \<^verbatim>\<open>parseInt(s, 16)\<close>: leading white space (the ASCII part of it) is skipped, then a
  sign, then \<^verbatim>\<open>0x\<close> or \<^verbatim>\<open>0X\<close>; the longest run of hexadecimal digits that follows is
  the number, and \<open>None\<close> stands for \<^verbatim>\<open>NaN\<close> when there is no digit. Up to eight digits
  the floating-point result is exact.
\<close>

definition hexDigitValue :: "char \<Rightarrow> nat option" where
  "hexDigitValue c =
     (let n = (of_char c :: nat)
      in if 48 \<le> n \<and> n \<le> 57 then Some (n - 48)
         else if 97 \<le> n \<and> n \<le> 102 then Some (n - 87)
         else if 65 \<le> n \<and> n \<le> 70 then Some (n - 55)
         else None)"

fun hexDigits :: "nat option \<Rightarrow> string \<Rightarrow> nat option" where
  "hexDigits acc [] = acc"
| "hexDigits acc (c # cs) =
     (case hexDigitValue c of
        None \<Rightarrow> acc
      | Some d \<Rightarrow> hexDigits (Some (16 * (case acc of None \<Rightarrow> 0 | Some a \<Rightarrow> a) + d)) cs)"

definition isWhiteSpace :: "char \<Rightarrow> bool" where
  "isWhiteSpace c = ((of_char c :: nat) \<in> {9, 10, 11, 12, 13, 32})"

definition parseInt16 :: "string \<Rightarrow> int option" where
  "parseInt16 s =
     (let t = dropWhile isWhiteSpace s;
          neg = (take 1 t = ''-'');
          u = (if take 1 t = ''-'' \<or> take 1 t = ''+'' then drop 1 t else t);
          w = (if take 2 u = ''0x'' \<or> take 2 u = ''0X'' then drop 2 u else u)
      in case hexDigits None w of
           None \<Rightarrow> None
         | Some n \<Rightarrow> Some (if neg then - int n else int n))"

text \<open>
  JavaScript's \<^verbatim>\<open>%\<close> on integers: the result has the sign of the dividend; \<open>None\<close> is
  \<^verbatim>\<open>NaN\<close>, for a zero divisor.
\<close>

definition js_rem :: "int \<Rightarrow> int \<Rightarrow> int option" where
  "js_rem a b = (if b = 0 then None else Some (sgn a * (\<bar>a\<bar> mod \<bar>b\<bar>)))"

definition int32Hash :: "(string \<Rightarrow> string \<Rightarrow> string) \<Rightarrow> string \<Rightarrow> int option" where
  "int32Hash hex_digest v =
     (let h = hash hex_digest ''sha256'' v
      in case parseInt16 (take 8 h) of
           None \<Rightarrow> None
         | Some n \<Rightarrow> js_rem n idHash32MaxValue)"

section \<open>Predicates on states and events\<close>

text \<open>Nothing of the scheduler exists: no timer, no call waiting, no handle stored.\<close>

definition unarmed :: "store \<Rightarrow> bool" where
  "unarmed s = (in_flight s = 0 \<and> timeouts s = 0 \<and> loop_waiting s = 0 \<and>
                \<not> interval_active s \<and> \<not> intervalToClear s)"

text \<open>The cold load is over and no callback of the store is waiting to run.\<close>

definition quiescent :: "store \<Rightarrow> bool" where
  "quiescent s = (cold s = Settled \<and> in_flight s = 0 \<and> timeouts s = 0 \<and> loop_waiting s = 0)"

fun is_rejected :: "'a promise \<Rightarrow> bool" where
  "is_rejected (Rejected e) = True"
| "is_rejected Pending = False"
| "is_rejected (Fulfilled v) = False"

fun is_cold_catch :: "event \<Rightarrow> bool" where
  "is_cold_catch (ColdCatch fs) = True"
| "is_cold_catch e = False"

definition cold_calls :: "store \<Rightarrow> (call_site \<times> date option) list" where
  "cold_calls s = filter (\<lambda>c. fst c = ColdLoad) (fetch_calls s)"

text \<open>What holds in every state a store can reach (\<open>store_inv_run\<close> below).\<close>

definition store_inv :: "store \<Rightarrow> bool" where
  "store_inv s =
     ((cold s = Fetching \<longrightarrow> instance_val s = JUndefined) \<and>
      (cold s \<noteq> Settled \<longrightarrow>
         unarmed s \<and> instancePromise s = Pending \<and> fetch_calls s = [(ColdLoad, None)]) \<and>
      (cold s = Settled \<longrightarrow> instancePromise s \<noteq> Pending) \<and>
      cold_calls s = [(ColdLoad, None)] \<and>
      (status s = Failed \<longrightarrow> is_rejected (instancePromise s)) \<and>
      (is_rejected (instancePromise s) \<longrightarrow> unarmed s))"

section \<open>Example stores and runtimes\<close>

text \<open>
  A store refreshed every second and one refreshed in a loop, both with a cache
  directory; a runtime with an empty, writable disk, one whose disk refuses the
  directory, and one that holds a snapshot last modified at time 42. In all of them
  \<^verbatim>\<open>getErrorMessage\<close> reads the message of the error.
\<close>

definition demo_store :: StoreDefinition where
  "demo_store =
     \<lparr>refreshIntervalMillis = 1000, name = ''demo'', serializer = None,
      deserializer = None, localDir = Some ''/var/cache''\<rparr>"

definition loop_store :: StoreDefinition where
  "loop_store =
     \<lparr>refreshIntervalMillis = 0, name = ''demo'', serializer = None,
      deserializer = None, localDir = Some ''/var/cache''\<rparr>"

definition fs_blank :: node where
  "fs_blank =
     \<lparr>mkdirSync = (\<lambda>p. None),
      readFileSync = (\<lambda>p. Inl (JsError ''ENOENT'')),
      statSync_mtime = (\<lambda>p. Inl (JsError ''ENOENT'')),
      JSON_stringify = (\<lambda>v. Inr ''{}''),
      JSON_parse = (\<lambda>t. Inl (JsError ''Unexpected token'')),
      getErrorMessage = (\<lambda>e. case e of JsError m \<Rightarrow> m)\<rparr>"

definition fs_readonly :: node where
  "fs_readonly = fs_blank\<lparr>mkdirSync := (\<lambda>p. Some (JsError ''EACCES''))\<rparr>"

definition fs_cached :: node where
  "fs_cached =
     fs_blank\<lparr>readFileSync := (\<lambda>p. Inr ''snapshot''),
              statSync_mtime := (\<lambda>p. Inr 42),
              JSON_parse := (\<lambda>t. Inr (JStr t))\<rparr>"

text \<open>A runtime whose \<^verbatim>\<open>JSON.stringify\<close> throws on an object, as it does on a cyclic one.\<close>

definition fs_cyclic :: node where
  "fs_cyclic =
     fs_blank\<lparr>JSON_stringify :=
       (\<lambda>v. case v of
               JObj r \<Rightarrow> Inl (JsError ''Converting circular structure to JSON'')
             | _ \<Rightarrow> Inr ''{}'')\<rparr>"

text \<open>A digest that answers with the SHA-256 of \<^verbatim>\<open>abc\<close>, in hexadecimal.\<close>

definition abc_digest :: "string \<Rightarrow> string \<Rightarrow> string" where
  "abc_digest algorithm v =
     ''ba7816bf8f01cfea414140de5dae2223b00361a396177a9cb410ff61f20015ad''"

section \<open>Properties\<close>

lemmas fixture_defs = demo_store_def loop_store_def fs_blank_def fs_readonly_def fs_cached_def

lemmas store_defs = run_def createInMemoryStore_def cold_then_def cold_catch_def
  refresh_call_def refresh_resume_def scheduleStoreRefresh_def loop_def stop_def
  saveLocalCache_def loadFromCache_def configuredDir_def cacheFile_def path_join_def
  init_failure_def get_def getCurrent_def

subsection \<open>Executions and the invariant\<close>

lemma exec_append: "exec defn (es @ fs) s = exec defn fs (exec defn es s)"
  by (induction es arbitrary: s) simp_all

lemma store_inv_init: "store_inv (createInMemoryStore defn first)"
  by (cases first) (simp_all add: store_inv_def createInMemoryStore_def unarmed_def cold_calls_def)

lemma store_inv_step: "store_inv s \<Longrightarrow> store_inv (step defn e s)"
  by (cases e)
     (auto simp: store_inv_def unarmed_def cold_calls_def cold_then_def cold_catch_def
        refresh_call_def refresh_resume_def scheduleStoreRefresh_def loop_def stop_def Let_def
        split: outcome.splits sum.splits option.splits cold_phase.splits if_splits)

lemma store_inv_exec: "store_inv s \<Longrightarrow> store_inv (exec defn es s)"
  by (induction es arbitrary: s) (simp_all add: store_inv_step)

lemma store_inv_run: "store_inv (run defn first es)"
  by (simp add: run_def store_inv_exec store_inv_init)

lemma settled_step:
  "cold s = Settled \<Longrightarrow>
     cold (step defn e s) = Settled \<and> instancePromise (step defn e s) = instancePromise s"
  by (cases e)
     (auto simp: refresh_call_def refresh_resume_def loop_def stop_def Let_def
        split: outcome.splits sum.splits option.splits)

lemma settled_exec:
  "cold s = Settled \<Longrightarrow>
     cold (exec defn es s) = Settled \<and> instancePromise (exec defn es s) = instancePromise s"
proof (induction es arbitrary: s)
  case Nil
  then show ?case by simp
next
  case (Cons e es)
  from Cons.prems have st: "cold (step defn e s) = Settled"
    and pr: "instancePromise (step defn e s) = instancePromise s"
    by (simp_all add: settled_step)
  from Cons.IH [OF st] pr show ?case by simp
qed

subsection \<open>Scheduled refreshes\<close>



subsection \<open>The cold load\<close>

text \<open>
  C7. In every state a store reaches, \<^verbatim>\<open>definition.refresh\<close> has been called exactly
  once from the cold load's call site, and with no marker; \<^verbatim>\<open>get()\<close> calls nothing and
  changes nothing, however many callers make it. Until the cold load is over no other
  fetch has been made and the shared promise is pending; while the first fetch is out
  every \<^verbatim>\<open>get()\<close> returns that one promise. Once the promise is settled it stays as it
  is, so all who wait on it see the same value or the same failure.
\<close>

theorem cold_load_single_flight:
  "filter (\<lambda>c. fst c = ColdLoad) (fetch_calls (run defn first es)) = [(ColdLoad, None)] \<and>
   step defn Get (run defn first es) = run defn first es \<and>
   (cold (run defn first es) \<noteq> Settled \<longrightarrow>
      fetch_calls (run defn first es) = [(ColdLoad, None)] \<and> instancePromise (run defn first es) = Pending) \<and>
   (cold (run defn first es) = Fetching \<longrightarrow> get (run defn first es) = InstancePromise) \<and>
   (instancePromise (run defn first es) \<noteq> Pending \<longrightarrow>
      (\<forall>es'. settled_as (exec defn es' (run defn first es)) InstancePromise
             = settled_as (run defn first es) InstancePromise))"
proof -
  have inv: "store_inv (run defn first es)" by (rule store_inv_run)
  have a: "filter (\<lambda>c. fst c = ColdLoad) (fetch_calls (run defn first es)) = [(ColdLoad, None)]"
    using inv by (simp add: store_inv_def cold_calls_def)
  have b: "cold (run defn first es) \<noteq> Settled \<longrightarrow>
      fetch_calls (run defn first es) = [(ColdLoad, None)] \<and> instancePromise (run defn first es) = Pending"
    using inv by (simp add: store_inv_def)
  have c: "cold (run defn first es) = Fetching \<longrightarrow> get (run defn first es) = InstancePromise"
    using inv by (simp add: store_inv_def get_def)
  have d: "instancePromise (run defn first es) \<noteq> Pending \<longrightarrow>
      (\<forall>es'. settled_as (exec defn es' (run defn first es)) InstancePromise
             = settled_as (run defn first es) InstancePromise)"
  proof (intro impI allI)
    fix es'
    assume "instancePromise (run defn first es) \<noteq> Pending"
    with inv have "cold (run defn first es) = Settled"
      by (auto simp: store_inv_def)
    then show "settled_as (exec defn es' (run defn first es)) InstancePromise
             = settled_as (run defn first es) InstancePromise"
      by (simp add: settled_exec)
  qed
  from a b c d show ?thesis by simp
qed

theorem cold_load_single_flight_witness:
  "cold (run demo_store ReturnsPromise [Get, Get, Get]) = Fetching \<and>
   fetch_calls (run demo_store ReturnsPromise [Get, Get, Get]) = [(ColdLoad, None)] \<and>
   get (run demo_store ReturnsPromise [Get, Get, Get]) = InstancePromise \<and>
   instancePromise (run demo_store ReturnsPromise [Get, Get, Get]) = Pending \<and>
   instancePromise (run demo_store ReturnsPromise [Get, Get, ColdSettled (Throws (JsError ''down'')) fs_blank 5,
       ColdCatch fs_cached]) = Fulfilled (JStr ''snapshot'') \<and>
   settled_as (exec demo_store [IntervalTick, RefreshSettled (Fresh None JNull) fs_blank 9, Get]
      (run demo_store ReturnsPromise [Get, Get, ColdSettled (Throws (JsError ''down'')) fs_blank 5,
       ColdCatch fs_cached])) InstancePromise = Fulfilled (JStr ''snapshot'')"
proof -
  let ?a = "[Get, Get, Get]"
  let ?b = "[Get, Get, ColdSettled (Throws (JsError ''down'')) fs_blank 5, ColdCatch fs_cached]"
  have a: "cold (run demo_store ReturnsPromise ?a) = Fetching"
    by (simp add: store_defs)
  have b: "instancePromise (run demo_store ReturnsPromise ?b) = Fulfilled (JStr ''snapshot'')"
    by (simp add: store_defs fixture_defs)
  note w = cold_load_single_flight [where defn = demo_store and first = ReturnsPromise and es = ?a]
  note v = cold_load_single_flight [where defn = demo_store and first = ReturnsPromise and es = ?b]
  from w a have a': "fetch_calls (run demo_store ReturnsPromise ?a) = [(ColdLoad, None)] \<and>
      get (run demo_store ReturnsPromise ?a) = InstancePromise \<and>
      instancePromise (run demo_store ReturnsPromise ?a) = Pending"
    by simp
  from v b have "\<forall>es'. settled_as (exec demo_store es' (run demo_store ReturnsPromise ?b)) InstancePromise
             = settled_as (run demo_store ReturnsPromise ?b) InstancePromise"
    by simp
  then have "settled_as (exec demo_store
        [IntervalTick, RefreshSettled (Fresh None JNull) fs_blank 9, Get]
        (run demo_store ReturnsPromise ?b)) InstancePromise
      = settled_as (run demo_store ReturnsPromise ?b) InstancePromise"
    by (rule spec)
  with a a' b show ?thesis by simp
qed

lemma catching_step:
  "cold s = Catching e \<Longrightarrow> unarmed s \<Longrightarrow> \<not> is_cold_catch ev \<Longrightarrow>
     cold (step defn ev s) = Catching e \<and> unarmed (step defn ev s) \<and>
     instance_val (step defn ev s) = instance_val s \<and>
     instancePromise (step defn ev s) = instancePromise s \<and>
     fetch_calls (step defn ev s) = fetch_calls s \<and>
     lastRefresh (step defn ev s) = lastRefresh s \<and>
     lastModified (step defn ev s) = lastModified s"
  by (cases ev) (auto simp: unarmed_def stop_def)

lemma catching_exec:
  "cold s = Catching e \<Longrightarrow> unarmed s \<Longrightarrow> list_all (\<lambda>ev. \<not> is_cold_catch ev) mids \<Longrightarrow>
     cold (exec defn mids s) = Catching e \<and> unarmed (exec defn mids s) \<and>
     instance_val (exec defn mids s) = instance_val s \<and>
     instancePromise (exec defn mids s) = instancePromise s \<and>
     fetch_calls (exec defn mids s) = fetch_calls s \<and>
     lastRefresh (exec defn mids s) = lastRefresh s \<and>
     lastModified (exec defn mids s) = lastModified s"
proof (induction mids arbitrary: s)
  case Nil
  then show ?case by simp
next
  case (Cons ev mids)
  from Cons.prems have nc: "\<not> is_cold_catch ev"
    and rest: "list_all (\<lambda>ev. \<not> is_cold_catch ev) mids"
    by simp_all
  note st = catching_step [OF Cons.prems(1) Cons.prems(2) nc, of defn]
  from st have c: "cold (step defn ev s) = Catching e" and u: "unarmed (step defn ev s)"
    by simp_all
  from Cons.IH [OF c u rest] st show ?case by simp
qed

lemma dormant_step:
  "cold s = Settled \<Longrightarrow> unarmed s \<Longrightarrow>
     cold (step defn ev s) = Settled \<and> unarmed (step defn ev s) \<and>
     instance_val (step defn ev s) = instance_val s \<and>
     instancePromise (step defn ev s) = instancePromise s \<and>
     fetch_calls (step defn ev s) = fetch_calls s \<and>
     lastRefresh (step defn ev s) = lastRefresh s \<and>
     status (step defn ev s) = (if ev = Stop then Stopped else status s)"
  by (cases ev) (auto simp: unarmed_def stop_def)

lemma dormant_exec:
  "cold s = Settled \<Longrightarrow> unarmed s \<Longrightarrow>
     cold (exec defn es s) = Settled \<and> unarmed (exec defn es s) \<and>
     instance_val (exec defn es s) = instance_val s \<and>
     instancePromise (exec defn es s) = instancePromise s \<and>
     fetch_calls (exec defn es s) = fetch_calls s \<and>
     lastRefresh (exec defn es s) = lastRefresh s \<and>
     status (exec defn es s) = (if Stop \<in> set es then Stopped else status s)"
proof (induction es arbitrary: s)
  case Nil
  then show ?case by simp
next
  case (Cons ev es)
  note st = dormant_step [OF Cons.prems, of defn ev]
  from st have c: "cold (step defn ev s) = Settled" and u: "unarmed (step defn ev s)"
    by simp_all
  from Cons.IH [OF c u] st show ?case by auto
qed

lemma fetch_failure_reaches_catch:
  assumes "cold (run defn ReturnsPromise es) = Fetching"
    and "list_all (\<lambda>ev. \<not> is_cold_catch ev) mids"
  shows "cold (exec defn (ColdSettled (Throws e) fs0 now # mids) (run defn ReturnsPromise es))
           = Catching e \<and>
         unarmed (exec defn (ColdSettled (Throws e) fs0 now # mids) (run defn ReturnsPromise es)) \<and>
         instance_val (exec defn (ColdSettled (Throws e) fs0 now # mids) (run defn ReturnsPromise es))
           = JUndefined \<and>
         instancePromise (exec defn (ColdSettled (Throws e) fs0 now # mids) (run defn ReturnsPromise es))
           = Pending \<and>
         fetch_calls (exec defn (ColdSettled (Throws e) fs0 now # mids) (run defn ReturnsPromise es))
           = [(ColdLoad, None)]"
proof -
  let ?s0 = "run defn ReturnsPromise es"
  let ?s1 = "step defn (ColdSettled (Throws e) fs0 now) ?s0"
  have inv: "store_inv ?s0" by (rule store_inv_run)
  with assms(1) have pre: "unarmed ?s0 \<and> instance_val ?s0 = JUndefined \<and>
      instancePromise ?s0 = Pending \<and> fetch_calls ?s0 = [(ColdLoad, None)]"
    by (simp add: store_inv_def)
  from assms(1) have c1: "cold ?s1 = Catching e"
    by (simp add: cold_then_def)
  from assms(1) pre have u1: "unarmed ?s1"
    and f1: "instance_val ?s1 = JUndefined \<and> instancePromise ?s1 = Pending \<and>
      fetch_calls ?s1 = [(ColdLoad, None)]"
    by (simp_all add: cold_then_def unarmed_def)
  from catching_exec [OF c1 u1 assms(2), of defn] f1 show ?thesis by simp
qed

text \<open>
  The unguarded first call. When \<^verbatim>\<open>definition.refresh()\<close> throws \<open>e\<close> before it returns
  its promise, the promise of the store is rejected with \<open>e\<close> itself and stays so, the
  cache is never read, no value is ever held, the fetch is never called again, and the
  status stays \<open>Initializing\<close> until \<^verbatim>\<open>stop()\<close> is called.
\<close>

lemma sync_throw_cold_load:
  "instancePromise (run defn (ThrowsSync e) es) = Rejected e \<and>
   status (run defn (ThrowsSync e) es) = (if Stop \<in> set es then Stopped else Initializing) \<and>
   instance_val (run defn (ThrowsSync e) es) = JUndefined \<and>
   fetch_calls (run defn (ThrowsSync e) es) = [(ColdLoad, None)] \<and>
   unarmed (run defn (ThrowsSync e) es)"
proof -
  let ?s = "createInMemoryStore defn (ThrowsSync e)"
  have c: "cold ?s = Settled" and u: "unarmed ?s"
    by (simp_all add: createInMemoryStore_def unarmed_def)
  from dormant_exec [OF c u, of defn es] show ?thesis
    by (simp add: run_def createInMemoryStore_def)
qed

text \<open>
  C2 (as amended). When the first fetch has returned its promise, that promise is
  rejected with \<open>e\<close> and \<^verbatim>\<open>loadFromCache\<close> finds no snapshot, the status becomes \<open>Failed\<close>
  and the shared promise, which every waiting caller holds, is rejected: not with \<open>e\<close>
  itself but with a new error whose message is \<^verbatim>\<open>Failed to initialize store <name>.
  Initial load failed with <getErrorMessage(e)> and no local cache found\<close>. Whatever happens
  afterwards, \<^verbatim>\<open>get()\<close> keeps returning that rejected promise, the fetch is never called
  again and nothing of the scheduler is armed. Between the rejection and the \<^verbatim>\<open>.catch\<close>
  callback any other events may occur. (A first call that throws instead of returning a
  promise is left out here; \<open>sync_throw_cold_load\<close> says what the code does then.)
\<close>

theorem cold_failure_without_snapshot:
  assumes "cold (run defn ReturnsPromise es) = Fetching"
    and "list_all (\<lambda>ev. \<not> is_cold_catch ev) mids"
    and "loadFromCache fs defn = None"
  shows "status (exec defn (ColdSettled (Throws e) fs0 now # mids @ [ColdCatch fs])
                   (run defn ReturnsPromise es))
           = Failed \<and>
         settled_as (exec defn (ColdSettled (Throws e) fs0 now # mids @ [ColdCatch fs])
                       (run defn ReturnsPromise es))
             InstancePromise
           = Rejected (JsError (''Failed to initialize store '' @ name defn
               @ ''. Initial load failed with '' @ getErrorMessage fs e
               @ '' and no local cache found'')) \<and>
         (\<forall>es'. get (exec defn es'
                   (exec defn (ColdSettled (Throws e) fs0 now # mids @ [ColdCatch fs])
                      (run defn ReturnsPromise es)))
                  = InstancePromise \<and>
                instancePromise (exec defn es'
                   (exec defn (ColdSettled (Throws e) fs0 now # mids @ [ColdCatch fs])
                      (run defn ReturnsPromise es)))
                  = Rejected (init_failure defn fs e) \<and>
                fetch_calls (exec defn es'
                   (exec defn (ColdSettled (Throws e) fs0 now # mids @ [ColdCatch fs])
                      (run defn ReturnsPromise es)))
                  = [(ColdLoad, None)] \<and>
                unarmed (exec defn es'
                   (exec defn (ColdSettled (Throws e) fs0 now # mids @ [ColdCatch fs])
                      (run defn ReturnsPromise es))))"
proof -
  let ?s1 = "exec defn (ColdSettled (Throws e) fs0 now # mids) (run defn ReturnsPromise es)"
  let ?s2 = "step defn (ColdCatch fs) ?s1"
  note pre = fetch_failure_reaches_catch [OF assms(1) assms(2), of e fs0 now]
  have split: "exec defn (ColdSettled (Throws e) fs0 now # mids @ [ColdCatch fs])
      (run defn ReturnsPromise es) = ?s2"
    using exec_append [of defn "ColdSettled (Throws e) fs0 now # mids" "[ColdCatch fs]"
        "run defn ReturnsPromise es"]
    by simp
  from pre assms(3) have a: "status ?s2 = Failed"
    and b: "instancePromise ?s2 = Rejected (init_failure defn fs e)"
    and c: "cold ?s2 = Settled" and u: "unarmed ?s2"
    and i: "instance_val ?s2 = JUndefined" and f: "fetch_calls ?s2 = [(ColdLoad, None)]"
    by (simp_all add: cold_catch_def unarmed_def)
  have later: "get (exec defn es' ?s2) = InstancePromise \<and>
      instancePromise (exec defn es' ?s2) = Rejected (init_failure defn fs e) \<and>
      fetch_calls (exec defn es' ?s2) = [(ColdLoad, None)] \<and> unarmed (exec defn es' ?s2)" for es'
    using dormant_exec [OF c u, of defn es'] b i f by (simp add: get_def)
  from a b later show ?thesis
    unfolding split by (simp add: init_failure_def)
qed

theorem cold_failure_without_snapshot_witness:
  "cold (run demo_store ReturnsPromise [Get]) = Fetching \<and>
   list_all (\<lambda>ev. \<not> is_cold_catch ev) [Get, Get] \<and>
   loadFromCache fs_blank demo_store = None \<and>
   status (run demo_store ReturnsPromise
      [Get, ColdSettled (Throws (JsError ''boom'')) fs_blank 5, Get, Get, ColdCatch fs_blank])
     = Failed \<and>
   settled_as (run demo_store ReturnsPromise
      [Get, ColdSettled (Throws (JsError ''boom'')) fs_blank 5, Get, Get, ColdCatch fs_blank])
      InstancePromise
     = Rejected (JsError
        ''Failed to initialize store demo. Initial load failed with boom and no local cache found'') \<and>
   fetch_calls (run demo_store ReturnsPromise
      [Get, ColdSettled (Throws (JsError ''boom'')) fs_blank 5, Get, Get, ColdCatch fs_blank,
       IntervalTick, TimeoutFire, Get])
     = [(ColdLoad, None)]"
proof -
  have h1: "cold (run demo_store ReturnsPromise [Get]) = Fetching"
    by (simp add: store_defs)
  have h2: "list_all (\<lambda>ev. \<not> is_cold_catch ev) [Get, Get]"
    by simp
  have h3: "loadFromCache fs_blank demo_store = None"
    by (simp add: store_defs fixture_defs)
  have eq: "exec demo_store
      (ColdSettled (Throws (JsError ''boom'')) fs_blank 5 # [Get, Get] @ [ColdCatch fs_blank])
      (run demo_store ReturnsPromise [Get])
    = run demo_store ReturnsPromise
      [Get, ColdSettled (Throws (JsError ''boom'')) fs_blank 5, Get, Get, ColdCatch fs_blank]"
    by (simp add: run_def)
  note w = cold_failure_without_snapshot [OF h1 h2 h3, of "JsError ''boom''" fs_blank 5,
      unfolded eq]
  from w have a: "status (run demo_store ReturnsPromise
      [Get, ColdSettled (Throws (JsError ''boom'')) fs_blank 5, Get, Get, ColdCatch fs_blank])
     = Failed"
    by blast
  have nm: "name demo_store = ''demo''"
    by (simp add: demo_store_def)
  have gm: "getErrorMessage fs_blank (JsError ''boom'') = ''boom''"
    by (simp add: fs_blank_def)
  from w have "settled_as (run demo_store ReturnsPromise
      [Get, ColdSettled (Throws (JsError ''boom'')) fs_blank 5, Get, Get, ColdCatch fs_blank])
      InstancePromise
     = Rejected (JsError (''Failed to initialize store '' @ name demo_store
               @ ''. Initial load failed with '' @ getErrorMessage fs_blank (JsError ''boom'')
               @ '' and no local cache found''))"
    by blast
  then have b: "settled_as (run demo_store ReturnsPromise
      [Get, ColdSettled (Throws (JsError ''boom'')) fs_blank 5, Get, Get, ColdCatch fs_blank])
      InstancePromise
     = Rejected (JsError
        ''Failed to initialize store demo. Initial load failed with boom and no local cache found'')"
    by (simp add: nm gm)
  from w have "\<forall>es'. fetch_calls (exec demo_store es'
        (run demo_store ReturnsPromise
      [Get, ColdSettled (Throws (JsError ''boom'')) fs_blank 5, Get, Get, ColdCatch fs_blank]))
      = [(ColdLoad, None)]"
    by blast
  then have "fetch_calls (exec demo_store [IntervalTick, TimeoutFire, Get]
        (run demo_store ReturnsPromise
      [Get, ColdSettled (Throws (JsError ''boom'')) fs_blank 5, Get, Get, ColdCatch fs_blank]))
      = [(ColdLoad, None)]"
    by (rule spec)
  then have c: "fetch_calls (run demo_store ReturnsPromise
      [Get, ColdSettled (Throws (JsError ''boom'')) fs_blank 5, Get, Get, ColdCatch fs_blank,
       IntervalTick, TimeoutFire, Get])
     = [(ColdLoad, None)]"
    by (simp add: run_def)
  from h1 h2 h3 a b c show ?thesis by blast
qed

text \<open>
  C2 as stated fails: the error a caller receives is not the fetch operation's own
  error \<^verbatim>\<open>boom\<close>, and its message names the missing cache.
\<close>

theorem original_error_counterexample:
  "loadFromCache fs_blank demo_store = None \<and>
   instancePromise (run demo_store ReturnsPromise
      [ColdSettled (Throws (JsError ''boom'')) fs_blank 5, ColdCatch fs_blank])
     = Rejected (JsError
        ''Failed to initialize store demo. Initial load failed with boom and no local cache found'') \<and>
   settled_as (run demo_store ReturnsPromise
      [ColdSettled (Throws (JsError ''boom'')) fs_blank 5, ColdCatch fs_blank])
      (get (run demo_store ReturnsPromise
      [ColdSettled (Throws (JsError ''boom'')) fs_blank 5, ColdCatch fs_blank]))
     \<noteq> Rejected (JsError ''boom'')"
  by (simp add: store_defs fixture_defs)




subsection \<open>The status \<open>Failed\<close> and stopping\<close>

lemma refresh_resume_status: "status (refresh_resume defn fs now res s) \<in> {Ok, Outdated}"
  by (simp add: refresh_resume_def split: outcome.splits sum.splits option.splits)

lemma failed_step:
  "status (step defn ev s) = Failed \<Longrightarrow> status s \<noteq> Failed \<Longrightarrow>
     \<exists>fs e. ev = ColdCatch fs \<and> cold s = Catching e \<and> loadFromCache fs defn = None"
proof (cases ev)
  case (ColdSettled res fs now)
  assume "status (step defn ev s) = Failed" "status s \<noteq> Failed"
  with ColdSettled show ?thesis
    by (auto simp: cold_then_def scheduleStoreRefresh_def loop_def
          split: outcome.splits sum.splits if_splits)
next
  case (ColdCatch fs)
  assume "status (step defn ev s) = Failed" "status s \<noteq> Failed"
  with ColdCatch show ?thesis
    by (auto simp: cold_catch_def scheduleStoreRefresh_def loop_def
          split: cold_phase.splits option.splits if_splits)
next
  case (RefreshSettled res fs now)
  assume "status (step defn ev s) = Failed" "status s \<noteq> Failed"
  with RefreshSettled refresh_resume_status [of defn fs now res s] show ?thesis
    by (auto simp: Let_def split: if_splits)
qed (auto simp: refresh_call_def loop_def stop_def split: if_splits)

text \<open>
  C8 (as amended). The only event that makes the status \<open>Failed\<close> is the \<^verbatim>\<open>.catch\<close>
  callback of the cold load when \<^verbatim>\<open>loadFromCache\<close> finds no snapshot; a resumed scheduled
  refresh sets \<open>Ok\<close> or \<open>Outdated\<close>, never \<open>Failed\<close>. From a state a store has reached
  with status \<open>Failed\<close>, the fetch is never called again and nothing of the scheduler is
  armed, and the status stays \<open>Failed\<close> until \<^verbatim>\<open>stop()\<close> is called, which makes it
  \<open>Stopped\<close> for good.
\<close>

theorem failed_only_from_cold_catch:
  "(status (step defn ev s) = Failed \<and> status s \<noteq> Failed \<longrightarrow>
      (\<exists>fs e. ev = ColdCatch fs \<and> cold s = Catching e \<and> loadFromCache fs defn = None)) \<and>
   status (refresh_resume defn fs' now res s) \<noteq> Failed \<and>
   (status (run defn first es) = Failed \<longrightarrow>
      (\<forall>es'. status (exec defn es' (run defn first es)) = (if Stop \<in> set es' then Stopped else Failed) \<and>
             fetch_calls (exec defn es' (run defn first es)) = fetch_calls (run defn first es) \<and>
             unarmed (exec defn es' (run defn first es))))"
proof -
  have a: "status (step defn ev s) = Failed \<and> status s \<noteq> Failed \<longrightarrow>
      (\<exists>fs e. ev = ColdCatch fs \<and> cold s = Catching e \<and> loadFromCache fs defn = None)"
    using failed_step [of defn ev s] by blast
  have b: "status (refresh_resume defn fs' now res s) \<noteq> Failed"
    using refresh_resume_status [of defn fs' now res s] by auto
  have c: "status (run defn first es) = Failed \<longrightarrow>
      (\<forall>es'. status (exec defn es' (run defn first es)) = (if Stop \<in> set es' then Stopped else Failed) \<and>
             fetch_calls (exec defn es' (run defn first es)) = fetch_calls (run defn first es) \<and>
             unarmed (exec defn es' (run defn first es)))"
  proof (intro impI allI)
    fix es'
    assume f: "status (run defn first es) = Failed"
    have inv: "store_inv (run defn first es)" by (rule store_inv_run)
    from inv f have rej: "is_rejected (instancePromise (run defn first es))"
      by (simp add: store_inv_def)
    with inv have u: "unarmed (run defn first es)"
      by (simp add: store_inv_def)
    from rej have "instancePromise (run defn first es) \<noteq> Pending"
      by auto
    with inv have c: "cold (run defn first es) = Settled"
      by (auto simp: store_inv_def)
    from dormant_exec [OF c u, of defn es'] f
    show "status (exec defn es' (run defn first es)) = (if Stop \<in> set es' then Stopped else Failed) \<and>
             fetch_calls (exec defn es' (run defn first es)) = fetch_calls (run defn first es) \<and>
             unarmed (exec defn es' (run defn first es))"
      by simp
  qed
  from a b c show ?thesis by blast
qed

theorem failed_only_from_cold_catch_witness:
  "status (run demo_store ReturnsPromise [ColdSettled (Throws (JsError ''boom'')) fs_blank 5]) \<noteq> Failed \<and>
   status (step demo_store (ColdCatch fs_blank)
      (run demo_store ReturnsPromise [ColdSettled (Throws (JsError ''boom'')) fs_blank 5])) = Failed \<and>
   cold (run demo_store ReturnsPromise [ColdSettled (Throws (JsError ''boom'')) fs_blank 5])
     = Catching (JsError ''boom'') \<and>
   loadFromCache fs_blank demo_store = None \<and>
   status (run demo_store ReturnsPromise [ColdSettled (Throws (JsError ''boom'')) fs_blank 5, ColdCatch fs_blank])
     = Failed \<and>
   status (exec demo_store [IntervalTick, Get]
      (run demo_store ReturnsPromise [ColdSettled (Throws (JsError ''boom'')) fs_blank 5, ColdCatch fs_blank]))
     = Failed \<and>
   status (exec demo_store [IntervalTick, Stop, TimeoutFire]
      (run demo_store ReturnsPromise [ColdSettled (Throws (JsError ''boom'')) fs_blank 5, ColdCatch fs_blank]))
     = Stopped"
proof -
  let ?s = "run demo_store ReturnsPromise [ColdSettled (Throws (JsError ''boom'')) fs_blank 5]"
  let ?t = "run demo_store ReturnsPromise [ColdSettled (Throws (JsError ''boom'')) fs_blank 5, ColdCatch fs_blank]"
  have h1: "status ?s \<noteq> Failed"
    by (simp add: store_defs)
  have h2: "status (step demo_store (ColdCatch fs_blank) ?s) = Failed"
    by (simp add: store_defs fixture_defs)
  have h3: "status ?t = Failed"
    by (simp add: store_defs fixture_defs)
  note w = failed_only_from_cold_catch [of demo_store "ColdCatch fs_blank" ?s]
  from w h1 h2 have "\<exists>fs e. ColdCatch fs_blank = ColdCatch fs \<and> cold ?s = Catching e \<and>
      loadFromCache fs demo_store = None"
    by blast
  then have k: "loadFromCache fs_blank demo_store = None"
    by auto
  have c: "cold ?s = Catching (JsError ''boom'')"
    by (simp add: store_defs)
  note v = failed_only_from_cold_catch [of demo_store Get ?t fs_blank 0 NotModified ReturnsPromise
      "[ColdSettled (Throws (JsError ''boom'')) fs_blank 5, ColdCatch fs_blank]"]
  from v h3 have al: "\<forall>es'. status (exec demo_store es' ?t) = (if Stop \<in> set es' then Stopped else Failed)"
    by blast
  from al have "status (exec demo_store [IntervalTick, Get] ?t)
      = (if Stop \<in> set [IntervalTick, Get] then Stopped else Failed)"
    by (rule spec)
  then have x: "status (exec demo_store [IntervalTick, Get] ?t) = Failed"
    by simp
  from al have "status (exec demo_store [IntervalTick, Stop, TimeoutFire] ?t)
      = (if Stop \<in> set [IntervalTick, Stop, TimeoutFire] then Stopped else Failed)"
    by (rule spec)
  then have y: "status (exec demo_store [IntervalTick, Stop, TimeoutFire] ?t) = Stopped"
    by simp
  from h1 h2 c k h3 x y show ?thesis by blast
qed

text \<open>
  C8 as stated fails: \<open>Failed\<close> is not the last status of a store, since \<^verbatim>\<open>stop()\<close>
  assigns \<open>Stopped\<close> whatever the status was.
\<close>

theorem failed_then_stopped_counterexample:
  "status (run demo_store ReturnsPromise [ColdSettled (Throws (JsError ''boom'')) fs_blank 5, ColdCatch fs_blank])
     = Failed \<and>
   status (run demo_store ReturnsPromise
      [ColdSettled (Throws (JsError ''boom'')) fs_blank 5, ColdCatch fs_blank, Stop])
     = Stopped"
  by (simp add: store_defs fixture_defs)

lemma frozen_step:
  "stopping s \<Longrightarrow> quiescent s \<Longrightarrow>
     stopping (step defn ev s) \<and> quiescent (step defn ev s) \<and>
     lastRefresh (step defn ev s) = lastRefresh s \<and>
     instance_val (step defn ev s) = instance_val s \<and>
     status (step defn ev s) = (if ev = Stop then Stopped else status s)"
  by (cases ev) (auto simp: quiescent_def stop_def)

lemma frozen_exec:
  "stopping s \<Longrightarrow> quiescent s \<Longrightarrow>
     status (exec defn es s) = (if Stop \<in> set es then Stopped else status s) \<and>
     lastRefresh (exec defn es s) = lastRefresh s \<and>
     instance_val (exec defn es s) = instance_val s"
proof (induction es arbitrary: s)
  case Nil
  then show ?case by simp
next
  case (Cons ev es)
  note st = frozen_step [OF Cons.prems, of defn ev]
  from st have a: "stopping (step defn ev s)" and c: "quiescent (step defn ev s)"
    by simp_all
  from Cons.IH [OF a c] st show ?case by auto
qed

text \<open>
  C5 (as amended). \<^verbatim>\<open>stop()\<close> sets the status to \<open>Stopped\<close> and the stopping flag and
  leaves the value and \<open>lastRefresh\<close> alone; once the flag is set an interval tick
  starts no refresh. What was under way is not discarded: a refresh that waits for its
  fetch sets the status to \<open>Ok\<close> or \<open>Outdated\<close> when it resumes, stopped or not, and a
  cold load sets \<open>Ok\<close> when its value is saved, or \<open>Failed\<close> or \<open>Outdated\<close> in its
  \<^verbatim>\<open>.catch\<close> callback. From a state with the flag set in which the cold load is over and
  no refresh, loop timeout or loop callback is pending, \<open>lastRefresh\<close> never changes,
  \<^verbatim>\<open>getCurrent()\<close> keeps returning the same value, and the status changes no more but
  for a further \<^verbatim>\<open>stop()\<close>, which sets \<open>Stopped\<close>: a status \<open>Stopped\<close> stays. Nothing is
  said of a loop timeout that is pending when \<^verbatim>\<open>stop()\<close> is called.
\<close>

theorem stopped_store_is_frozen:
  "status (stop s) = Stopped \<and> stopping (stop s) \<and> getCurrent (stop s) = getCurrent s \<and>
   lastRefresh (stop s) = lastRefresh s \<and>
   (stopping s \<longrightarrow> step defn IntervalTick s = s) \<and>
   (0 < in_flight s \<longrightarrow> status (step defn (RefreshSettled res fs now) s) \<in> {Ok, Outdated}) \<and>
   (cold s = Fetching \<and> saveLocalCache fs defn v = Inr w \<longrightarrow>
      status (step defn (ColdSettled (Fresh lm v) fs now) s) = Ok) \<and>
   (cold s = Catching e \<longrightarrow> status (step defn (ColdCatch fs) s) \<in> {Failed, Outdated}) \<and>
   (stopping s \<and> quiescent s \<longrightarrow>
      (\<forall>es. status (exec defn es s) = (if Stop \<in> set es then Stopped else status s) \<and>
            lastRefresh (exec defn es s) = lastRefresh s \<and>
            getCurrent (exec defn es s) = getCurrent s))"
proof -
  have a: "status (stop s) = Stopped \<and> stopping (stop s) \<and> getCurrent (stop s) = getCurrent s \<and>
      lastRefresh (stop s) = lastRefresh s"
    by (simp add: stop_def getCurrent_def)
  have b: "stopping s \<longrightarrow> step defn IntervalTick s = s"
    by simp
  have c: "0 < in_flight s \<longrightarrow> status (step defn (RefreshSettled res fs now) s) \<in> {Ok, Outdated}"
    using refresh_resume_status [of defn fs now res s] by (simp add: Let_def)
  have d: "cold s = Fetching \<and> saveLocalCache fs defn v = Inr w \<longrightarrow>
      status (step defn (ColdSettled (Fresh lm v) fs now) s) = Ok"
    by (simp add: cold_then_def scheduleStoreRefresh_def loop_def)
  have e: "cold s = Catching e \<longrightarrow> status (step defn (ColdCatch fs) s) \<in> {Failed, Outdated}"
    by (simp add: cold_catch_def scheduleStoreRefresh_def loop_def split: option.splits)
  have f: "stopping s \<and> quiescent s \<longrightarrow>
      (\<forall>es. status (exec defn es s) = (if Stop \<in> set es then Stopped else status s) \<and>
            lastRefresh (exec defn es s) = lastRefresh s \<and>
            getCurrent (exec defn es s) = getCurrent s)"
    using frozen_exec [of s defn] by (simp add: getCurrent_def)
  from a b c d e f show ?thesis by blast
qed

theorem stopped_store_is_frozen_witness:
  "stopping (run demo_store ReturnsPromise
      [ColdSettled (Fresh None (JObj 1)) fs_blank 100, IntervalTick,
       RefreshSettled NotModified fs_blank 200, Stop]) \<and>
   quiescent (run demo_store ReturnsPromise
      [ColdSettled (Fresh None (JObj 1)) fs_blank 100, IntervalTick,
       RefreshSettled NotModified fs_blank 200, Stop]) \<and>
   status (run demo_store ReturnsPromise
      [ColdSettled (Fresh None (JObj 1)) fs_blank 100, IntervalTick,
       RefreshSettled NotModified fs_blank 200, Stop]) = Stopped \<and>
   status (exec demo_store [IntervalTick, RefreshSettled (Fresh None (JObj 2)) fs_blank 300, Get]
      (run demo_store ReturnsPromise
        [ColdSettled (Fresh None (JObj 1)) fs_blank 100, IntervalTick,
         RefreshSettled NotModified fs_blank 200, Stop])) = Stopped \<and>
   lastRefresh (exec demo_store [IntervalTick, RefreshSettled (Fresh None (JObj 2)) fs_blank 300, Get]
      (run demo_store ReturnsPromise
        [ColdSettled (Fresh None (JObj 1)) fs_blank 100, IntervalTick,
         RefreshSettled NotModified fs_blank 200, Stop])) = Some 200 \<and>
   getCurrent (exec demo_store [IntervalTick, RefreshSettled (Fresh None (JObj 2)) fs_blank 300, Get]
      (run demo_store ReturnsPromise
        [ColdSettled (Fresh None (JObj 1)) fs_blank 100, IntervalTick,
         RefreshSettled NotModified fs_blank 200, Stop])) = JObj 1 \<and>
   0 < in_flight (run demo_store ReturnsPromise
      [ColdSettled (Fresh None (JObj 1)) fs_blank 100, IntervalTick, Stop]) \<and>
   status (step demo_store (RefreshSettled (Throws (JsError ''down'')) fs_blank 200)
      (run demo_store ReturnsPromise
        [ColdSettled (Fresh None (JObj 1)) fs_blank 100, IntervalTick, Stop])) \<in> {Ok, Outdated} \<and>
   cold (run demo_store ReturnsPromise [Stop]) = Fetching \<and>
   saveLocalCache fs_blank demo_store (JObj 1)
     = Inr (Some (''/var/cache/demo-latest.json'', ''{}'')) \<and>
   status (step demo_store (ColdSettled (Fresh None (JObj 1)) fs_blank 100)
      (run demo_store ReturnsPromise [Stop])) = Ok \<and>
   cold (run demo_store ReturnsPromise [Stop, ColdSettled (Throws (JsError ''boom'')) fs_blank 5])
     = Catching (JsError ''boom'') \<and>
   status (step demo_store (ColdCatch fs_blank)
      (run demo_store ReturnsPromise [Stop, ColdSettled (Throws (JsError ''boom'')) fs_blank 5]))
     \<in> {Failed, Outdated}"
proof -
  let ?s = "run demo_store ReturnsPromise
      [ColdSettled (Fresh None (JObj 1)) fs_blank 100, IntervalTick,
       RefreshSettled NotModified fs_blank 200, Stop]"
  let ?t = "run demo_store ReturnsPromise
      [ColdSettled (Fresh None (JObj 1)) fs_blank 100, IntervalTick, Stop]"
  let ?u = "run demo_store ReturnsPromise [Stop]"
  let ?v = "run demo_store ReturnsPromise [Stop, ColdSettled (Throws (JsError ''boom'')) fs_blank 5]"
  have h1: "stopping ?s" by (simp add: store_defs fixture_defs)
  have h2: "status ?s = Stopped" by (simp add: store_defs fixture_defs)
  have h3: "quiescent ?s" by (simp add: store_defs fixture_defs quiescent_def)
  have f: "lastRefresh ?s = Some 200 \<and> getCurrent ?s = JObj 1"
    by (simp add: store_defs fixture_defs)
  have h4: "0 < in_flight ?t" by (simp add: store_defs fixture_defs)
  have h5: "cold ?u = Fetching" by (simp add: store_defs)
  have h6: "saveLocalCache fs_blank demo_store (JObj 1)
     = Inr (Some (''/var/cache/demo-latest.json'', ''{}''))"
    by (simp add: store_defs fixture_defs)
  have h7: "cold ?v = Catching (JsError ''boom'')" by (simp add: store_defs)
  from stopped_store_is_frozen [where s = ?s and defn = demo_store] h1 h3
  have "\<forall>es. status (exec demo_store es ?s) = (if Stop \<in> set es then Stopped else status ?s) \<and>
      lastRefresh (exec demo_store es ?s) = lastRefresh ?s \<and>
      getCurrent (exec demo_store es ?s) = getCurrent ?s"
    by blast
  then have "status (exec demo_store
        [IntervalTick, RefreshSettled (Fresh None (JObj 2)) fs_blank 300, Get] ?s)
        = (if Stop \<in> set [IntervalTick, RefreshSettled (Fresh None (JObj 2)) fs_blank 300, Get]
           then Stopped else status ?s) \<and>
      lastRefresh (exec demo_store
        [IntervalTick, RefreshSettled (Fresh None (JObj 2)) fs_blank 300, Get] ?s) = lastRefresh ?s \<and>
      getCurrent (exec demo_store
        [IntervalTick, RefreshSettled (Fresh None (JObj 2)) fs_blank 300, Get] ?s) = getCurrent ?s"
    by (rule spec)
  with f h2 have r1: "status (exec demo_store
        [IntervalTick, RefreshSettled (Fresh None (JObj 2)) fs_blank 300, Get] ?s) = Stopped \<and>
      lastRefresh (exec demo_store
        [IntervalTick, RefreshSettled (Fresh None (JObj 2)) fs_blank 300, Get] ?s) = Some 200 \<and>
      getCurrent (exec demo_store
        [IntervalTick, RefreshSettled (Fresh None (JObj 2)) fs_blank 300, Get] ?s) = JObj 1"
    by simp
  from stopped_store_is_frozen [where s = ?t and defn = demo_store
      and res = "Throws (JsError ''down'')" and fs = fs_blank and now = 200] h4
  have r2: "status (step demo_store (RefreshSettled (Throws (JsError ''down'')) fs_blank 200) ?t)
      \<in> {Ok, Outdated}"
    by blast
  from stopped_store_is_frozen [where s = ?u and defn = demo_store and fs = fs_blank
      and v = "JObj 1" and w = "Some (''/var/cache/demo-latest.json'', ''{}'')"
      and lm = None and now = 100] h5 h6
  have r3: "status (step demo_store (ColdSettled (Fresh None (JObj 1)) fs_blank 100) ?u) = Ok"
    by blast
  from stopped_store_is_frozen [where s = ?v and defn = demo_store and fs = fs_blank
      and e = "JsError ''boom''"] h7
  have r4: "status (step demo_store (ColdCatch fs_blank) ?v) \<in> {Failed, Outdated}"
    by blast
  from h1 h2 h3 h4 h5 h6 h7 r1 r2 r3 r4 show ?thesis by blast
qed

text \<open>
  C5 as stated fails: a refresh that is waiting for its fetch when \<^verbatim>\<open>stop()\<close> is called
  resumes afterwards, sets the status back to \<open>Ok\<close>, stamps \<open>lastRefresh\<close> and replaces
  the value.
\<close>

theorem late_refresh_counterexample:
  "status (run demo_store ReturnsPromise
      [ColdSettled (Fresh None (JObj 1)) fs_blank 100, IntervalTick, Stop]) = Stopped \<and>
   lastRefresh (run demo_store ReturnsPromise
      [ColdSettled (Fresh None (JObj 1)) fs_blank 100, IntervalTick, Stop]) = Some 100 \<and>
   getCurrent (run demo_store ReturnsPromise
      [ColdSettled (Fresh None (JObj 1)) fs_blank 100, IntervalTick, Stop]) = JObj 1 \<and>
   status (run demo_store ReturnsPromise
      [ColdSettled (Fresh None (JObj 1)) fs_blank 100, IntervalTick, Stop,
       RefreshSettled (Fresh None (JObj 2)) fs_blank 200]) = Ok \<and>
   lastRefresh (run demo_store ReturnsPromise
      [ColdSettled (Fresh None (JObj 1)) fs_blank 100, IntervalTick, Stop,
       RefreshSettled (Fresh None (JObj 2)) fs_blank 200]) = Some 200 \<and>
   getCurrent (run demo_store ReturnsPromise
      [ColdSettled (Fresh None (JObj 1)) fs_blank 100, IntervalTick, Stop,
       RefreshSettled (Fresh None (JObj 2)) fs_blank 200]) = JObj 2"
  by (simp add: store_defs fixture_defs)

subsection \<open>What \<^verbatim>\<open>get()\<close> returns\<close>

lemma cold_success_step:
  assumes "cold s = Fetching" and "saveLocalCache fs defn v = Inr w"
  shows "cold (step defn (ColdSettled (Fresh lm v) fs now) s) = Settled \<and>
         instancePromise (step defn (ColdSettled (Fresh lm v) fs now) s) = Fulfilled v"
  using assms by (simp add: cold_then_def scheduleStoreRefresh_def loop_def)

text \<open>
  C9. \<^verbatim>\<open>get()\<close> tests the current value for truthiness: whenever it is falsy (\<^verbatim>\<open>0\<close>, the
  empty string, \<^verbatim>\<open>false\<close>, \<^verbatim>\<open>null\<close>, \<^verbatim>\<open>NaN\<close> as well as \<^verbatim>\<open>undefined\<close>) the call returns
  the promise of the cold load. So after a cold load that took \<open>v0\<close> from the fetch and
  saved it, and more generally once the promise is fulfilled with some value, a later
  state whose current value is falsy (a refresh stored one) has \<^verbatim>\<open>get()\<close> resolve with the
  cold load's value, not with the current one.
\<close>

theorem get_tests_truthiness:
  "(\<not> truthy (instance_val s) \<longrightarrow> get s = InstancePromise) \<and>
   (cold (run defn first es) = Fetching \<and> saveLocalCache fs defn v0 = Inr w \<and>
    \<not> truthy (instance_val (exec defn (ColdSettled (Fresh lm v0) fs now # es') (run defn first es))) \<longrightarrow>
      settled_as (exec defn (ColdSettled (Fresh lm v0) fs now # es') (run defn first es))
        (get (exec defn (ColdSettled (Fresh lm v0) fs now # es') (run defn first es))) = Fulfilled v0) \<and>
   (instancePromise (run defn first es) = Fulfilled v1 \<and>
    \<not> truthy (instance_val (exec defn es' (run defn first es))) \<longrightarrow>
      settled_as (exec defn es' (run defn first es)) (get (exec defn es' (run defn first es))) = Fulfilled v1)"
proof -
  have a: "\<not> truthy (instance_val s) \<longrightarrow> get s = InstancePromise"
    by (simp add: get_def)
  have b: "settled_as (exec defn (ColdSettled (Fresh lm v0) fs now # es') (run defn first es))
        (get (exec defn (ColdSettled (Fresh lm v0) fs now # es') (run defn first es))) = Fulfilled v0"
    if c: "cold (run defn first es) = Fetching" and sv: "saveLocalCache fs defn v0 = Inr w"
      and fl: "\<not> truthy (instance_val (exec defn (ColdSettled (Fresh lm v0) fs now # es') (run defn first es)))"
  proof -
    let ?s1 = "step defn (ColdSettled (Fresh lm v0) fs now) (run defn first es)"
    from cold_success_step [OF c sv, of lm now]
    have c1: "cold ?s1 = Settled" and p1: "instancePromise ?s1 = Fulfilled v0"
      by simp_all
    have e: "exec defn (ColdSettled (Fresh lm v0) fs now # es') (run defn first es) = exec defn es' ?s1"
      by simp
    from settled_exec [OF c1, of defn es'] p1
    have "instancePromise (exec defn es' ?s1) = Fulfilled v0"
      by simp
    with fl show ?thesis
      unfolding e by (simp add: get_def)
  qed
  have c: "settled_as (exec defn es' (run defn first es)) (get (exec defn es' (run defn first es))) = Fulfilled v1"
    if p: "instancePromise (run defn first es) = Fulfilled v1"
      and fl: "\<not> truthy (instance_val (exec defn es' (run defn first es)))"
  proof -
    have inv: "store_inv (run defn first es)" by (rule store_inv_run)
    with p have "cold (run defn first es) = Settled"
      by (auto simp: store_inv_def)
    from settled_exec [OF this, of defn es'] p
    have "instancePromise (exec defn es' (run defn first es)) = Fulfilled v1"
      by simp
    with fl show ?thesis by (simp add: get_def)
  qed
  from a b c show ?thesis by blast
qed

theorem get_tests_truthiness_witness:
  "cold (run demo_store ReturnsPromise []) = Fetching \<and>
   saveLocalCache fs_blank demo_store (JStr ''cfg'')
     = Inr (Some (''/var/cache/demo-latest.json'', ''{}'')) \<and>
   instancePromise (run demo_store ReturnsPromise [ColdSettled (Fresh None (JStr ''cfg'')) fs_blank 100])
     = Fulfilled (JStr ''cfg'') \<and>
   getCurrent (run demo_store ReturnsPromise
      [ColdSettled (Fresh None (JStr ''cfg'')) fs_blank 100, IntervalTick,
       RefreshSettled (Fresh None (JNum 0)) fs_blank 200]) = JNum 0 \<and>
   \<not> truthy (JNum 0) \<and>
   get (run demo_store ReturnsPromise
      [ColdSettled (Fresh None (JStr ''cfg'')) fs_blank 100, IntervalTick,
       RefreshSettled (Fresh None (JNum 0)) fs_blank 200]) = InstancePromise \<and>
   settled_as (run demo_store ReturnsPromise
      [ColdSettled (Fresh None (JStr ''cfg'')) fs_blank 100, IntervalTick,
       RefreshSettled (Fresh None (JNum 0)) fs_blank 200])
     (get (run demo_store ReturnsPromise
      [ColdSettled (Fresh None (JStr ''cfg'')) fs_blank 100, IntervalTick,
       RefreshSettled (Fresh None (JNum 0)) fs_blank 200])) = Fulfilled (JStr ''cfg'')"
proof -
  let ?es' = "[IntervalTick, RefreshSettled (Fresh None (JNum 0)) fs_blank 200]"
  let ?t = "run demo_store ReturnsPromise
      [ColdSettled (Fresh None (JStr ''cfg'')) fs_blank 100, IntervalTick,
       RefreshSettled (Fresh None (JNum 0)) fs_blank 200]"
  have h1: "cold (run demo_store ReturnsPromise []) = Fetching"
    by (simp add: store_defs)
  have h2: "saveLocalCache fs_blank demo_store (JStr ''cfg'')
     = Inr (Some (''/var/cache/demo-latest.json'', ''{}''))"
    by (simp add: store_defs fixture_defs)
  have h3: "instancePromise (run demo_store ReturnsPromise [ColdSettled (Fresh None (JStr ''cfg'')) fs_blank 100])
     = Fulfilled (JStr ''cfg'')"
    by (simp add: store_defs fixture_defs)
  have cur: "getCurrent ?t = JNum 0"
    by (simp add: store_defs fixture_defs)
  have e1: "exec demo_store (ColdSettled (Fresh None (JStr ''cfg'')) fs_blank 100 # ?es')
      (run demo_store ReturnsPromise []) = ?t"
    by (simp add: run_def)
  have e2: "exec demo_store ?es'
      (run demo_store ReturnsPromise [ColdSettled (Fresh None (JStr ''cfg'')) fs_blank 100]) = ?t"
    by (simp add: run_def)
  from cur have fl: "\<not> truthy (instance_val ?t)"
    by (simp add: getCurrent_def)
  note w1 = get_tests_truthiness [of ?t demo_store ReturnsPromise "[]" fs_blank "JStr ''cfg''"
      "Some (''/var/cache/demo-latest.json'', ''{}'')" None 100 ?es' "JStr ''cfg''", unfolded e1]
  note w2 = get_tests_truthiness [of ?t demo_store ReturnsPromise
      "[ColdSettled (Fresh None (JStr ''cfg'')) fs_blank 100]" fs_blank "JStr ''cfg''"
      None None 100 ?es' "JStr ''cfg''", unfolded e2]
  from w1 fl have g: "get ?t = InstancePromise"
    by blast
  from w1 h1 h2 fl have r1: "settled_as ?t (get ?t) = Fulfilled (JStr ''cfg'')"
    by blast
  from w2 h3 fl have r2: "settled_as ?t (get ?t) = Fulfilled (JStr ''cfg'')"
    by blast
  have f0: "\<not> truthy (JNum 0)" by simp
  from h1 h2 h3 cur f0 g r1 r2 show ?thesis by blast
qed

lemma resolved_invariant_step:
  assumes "store_inv s"
    and "(cold s = Settled \<and> (\<exists>v. instancePromise s = Fulfilled v)) \<or>
         (truthy (instance_val s) \<and> unarmed s \<and> cold s \<noteq> Fetching)"
  shows "(cold (step defn ev s) = Settled \<and> (\<exists>v. instancePromise (step defn ev s) = Fulfilled v)) \<or>
         (truthy (instance_val (step defn ev s)) \<and> unarmed (step defn ev s) \<and>
          cold (step defn ev s) \<noteq> Fetching)"
  using assms(2)
proof
  assume "cold s = Settled \<and> (\<exists>v. instancePromise s = Fulfilled v)"
  with settled_step [of s defn ev] show ?thesis by auto
next
  assume h: "truthy (instance_val s) \<and> unarmed s \<and> cold s \<noteq> Fetching"
  show ?thesis
  proof (cases "cold s")
    case Fetching
    with h show ?thesis by simp
  next
    case (Catching e)
    show ?thesis
    proof (cases "is_cold_catch ev")
      case False
      from catching_step [OF Catching _ False, of defn] h show ?thesis by simp
    next
      case True
      then obtain fs where ev: "ev = ColdCatch fs" by (cases ev) auto
      from h Catching show ?thesis
        unfolding ev
        by (auto simp: cold_catch_def unarmed_def scheduleStoreRefresh_def loop_def
              split: option.splits)
    qed
  next
    case Settled
    from dormant_step [OF Settled, of defn ev] h show ?thesis by simp
  qed
qed

lemma resolved_invariant_exec:
  assumes "store_inv s"
    and "(cold s = Settled \<and> (\<exists>v. instancePromise s = Fulfilled v)) \<or>
         (truthy (instance_val s) \<and> unarmed s \<and> cold s \<noteq> Fetching)"
  shows "(cold (exec defn es s) = Settled \<and> (\<exists>v. instancePromise (exec defn es s) = Fulfilled v)) \<or>
         (truthy (instance_val (exec defn es s)) \<and> unarmed (exec defn es s) \<and>
          cold (exec defn es s) \<noteq> Fetching)"
  using assms
proof (induction es arbitrary: s)
  case Nil
  then show ?case by simp
next
  case (Cons ev es)
  from Cons.prems(1) have i: "store_inv (step defn ev s)"
    by (rule store_inv_step)
  from Cons.IH [OF i resolved_invariant_step [OF Cons.prems, of defn ev]]
  show ?case by simp
qed

lemma resolved_get_stays_resolved:
  assumes "settled_as (run defn first es) (get (run defn first es)) = Fulfilled v"
  shows "\<exists>v'. settled_as (exec defn es' (run defn first es)) (get (exec defn es' (run defn first es)))
           = Fulfilled v'"
proof -
  let ?s = "run defn first es"
  have inv: "store_inv ?s" by (rule store_inv_run)
  have start: "(cold ?s = Settled \<and> (\<exists>v. instancePromise ?s = Fulfilled v)) \<or>
         (truthy (instance_val ?s) \<and> unarmed ?s \<and> cold ?s \<noteq> Fetching)"
  proof (cases "truthy (instance_val ?s)")
    case False
    with assms have "instancePromise ?s = Fulfilled v"
      by (simp add: get_def)
    with inv show ?thesis by (auto simp: store_inv_def)
  next
    case True
    show ?thesis
    proof (cases "instancePromise ?s")
      case Pending
      with inv True show ?thesis by (auto simp: store_inv_def)
    next
      case (Fulfilled u)
      with inv show ?thesis by (auto simp: store_inv_def)
    next
      case (Rejected e)
      with inv True show ?thesis by (auto simp: store_inv_def)
    qed
  qed
  from resolved_invariant_exec [OF inv start, of defn es']
  show ?thesis by (auto simp: get_def)
qed

text \<open>
  C1 does not hold of the code. The first fetch succeeds with the value \<^verbatim>\<open>0\<close>, which
  becomes the current value; \<^verbatim>\<open>saveLocalCache\<close> then throws because the directory cannot
  be made, and the \<^verbatim>\<open>.catch\<close> callback finds no snapshot. Before that callback runs
  \<^verbatim>\<open>get()\<close> hands out the pending promise, and afterwards the rejected one, while
  \<^verbatim>\<open>getCurrent()\<close> returns \<^verbatim>\<open>0\<close>. (\<open>resolved_get_stays_resolved\<close> above is what does
  hold: once a \<^verbatim>\<open>get()\<close> has resolved, every later one resolves.)
\<close>

theorem get_rejects_after_fetched_value:
  "getCurrent (run demo_store ReturnsPromise [ColdSettled (Fresh None (JNum 0)) fs_readonly 100]) = JNum 0 \<and>
   settled_as (run demo_store ReturnsPromise [ColdSettled (Fresh None (JNum 0)) fs_readonly 100])
     (get (run demo_store ReturnsPromise [ColdSettled (Fresh None (JNum 0)) fs_readonly 100])) = Pending \<and>
   loadFromCache fs_readonly demo_store = None \<and>
   status (run demo_store ReturnsPromise
      [ColdSettled (Fresh None (JNum 0)) fs_readonly 100, ColdCatch fs_readonly]) = Failed \<and>
   getCurrent (run demo_store ReturnsPromise
      [ColdSettled (Fresh None (JNum 0)) fs_readonly 100, ColdCatch fs_readonly]) = JNum 0 \<and>
   settled_as (run demo_store ReturnsPromise
      [ColdSettled (Fresh None (JNum 0)) fs_readonly 100, ColdCatch fs_readonly])
     (get (run demo_store ReturnsPromise
      [ColdSettled (Fresh None (JNum 0)) fs_readonly 100, ColdCatch fs_readonly]))
     = Rejected (JsError
        ''Failed to initialize store demo. Initial load failed with EACCES and no local cache found'')"
  by (simp add: store_defs fixture_defs)

lemma refresh_with_cache_written:
  "saveLocalCache fs defn v = Inr w \<Longrightarrow>
     status (refresh_resume defn fs now (Fresh lm v) s) = Ok \<and>
     instance_val (refresh_resume defn fs now (Fresh lm v) s) = v \<and>
     lastRefresh (refresh_resume defn fs now (Fresh lm v) s) = Some now"
  by (simp add: refresh_resume_def split: option.splits)

lemma write_error_changes_nothing: "step defn (WriteFileDone (Some e)) s = s"
  by simp

text \<open>
  C4 does not hold of the code. \<^verbatim>\<open>saveLocalCache\<close> catches nothing, so an exception of
  \<^verbatim>\<open>mkdirSync\<close> or of the serializer (here \<^verbatim>\<open>JSON.stringify\<close> on a cyclic object) reaches
  the \<^verbatim>\<open>catch\<close> of \<^verbatim>\<open>refresh\<close>: the status becomes \<open>Outdated\<close>, the value fetched is
  dropped and \<open>lastRefresh\<close> and the marker stay as they were. Only a failure of the
  asynchronous write is swallowed (\<open>write_error_changes_nothing\<close>), and when the call
  returns the refresh succeeds (\<open>refresh_with_cache_written\<close>).
\<close>

theorem cache_failure_fails_refresh:
  "saveLocalCache fs_readonly demo_store (JObj 2) = Inl (JsError ''EACCES'') \<and>
   status (run demo_store ReturnsPromise
      [ColdSettled (Fresh (Some 1) (JObj 1)) fs_blank 100, IntervalTick,
       RefreshSettled (Fresh (Some 2) (JObj 2)) fs_readonly 200]) = Outdated \<and>
   getCurrent (run demo_store ReturnsPromise
      [ColdSettled (Fresh (Some 1) (JObj 1)) fs_blank 100, IntervalTick,
       RefreshSettled (Fresh (Some 2) (JObj 2)) fs_readonly 200]) = JObj 1 \<and>
   lastRefresh (run demo_store ReturnsPromise
      [ColdSettled (Fresh (Some 1) (JObj 1)) fs_blank 100, IntervalTick,
       RefreshSettled (Fresh (Some 2) (JObj 2)) fs_readonly 200]) = Some 100 \<and>
   lastModified (run demo_store ReturnsPromise
      [ColdSettled (Fresh (Some 1) (JObj 1)) fs_blank 100, IntervalTick,
       RefreshSettled (Fresh (Some 2) (JObj 2)) fs_readonly 200]) = Some 1 \<and>
   saveLocalCache fs_cyclic demo_store (JObj 2)
     = Inl (JsError ''Converting circular structure to JSON'') \<and>
   status (run demo_store ReturnsPromise
      [ColdSettled (Fresh (Some 1) (JStr ''a'')) fs_cyclic 100, IntervalTick,
       RefreshSettled (Fresh (Some 2) (JObj 2)) fs_cyclic 200]) = Outdated \<and>
   getCurrent (run demo_store ReturnsPromise
      [ColdSettled (Fresh (Some 1) (JStr ''a'')) fs_cyclic 100, IntervalTick,
       RefreshSettled (Fresh (Some 2) (JObj 2)) fs_cyclic 200]) = JStr ''a'' \<and>
   lastRefresh (run demo_store ReturnsPromise
      [ColdSettled (Fresh (Some 1) (JStr ''a'')) fs_cyclic 100, IntervalTick,
       RefreshSettled (Fresh (Some 2) (JObj 2)) fs_cyclic 200]) = Some 100"
  by (simp add: store_defs fixture_defs fs_cyclic_def)

subsection \<open>The profile id hash\<close>

lemma hex_char_props:
  assumes "c \<in> set ''0123456789abcdef''"
  shows "(\<exists>d. hexDigitValue c = Some d) \<and> \<not> isWhiteSpace c \<and> c \<noteq> CHR ''-'' \<and>
         c \<noteq> CHR ''+'' \<and> c \<noteq> CHR ''x'' \<and> c \<noteq> CHR ''X''"
  using assms by (auto simp: hexDigitValue_def isWhiteSpace_def)

lemma hexDigits_Some: "\<exists>n. hexDigits (Some a) cs = Some n"
  by (induction cs arbitrary: a) (auto split: option.splits)

lemma parseInt16_hex:
  assumes "c1 \<in> set ''0123456789abcdef''" and "c2 \<in> set ''0123456789abcdef''"
  shows "\<exists>n. parseInt16 (c1 # c2 # cs) = Some (int n)"
proof -
  from hex_char_props [OF assms(1)] obtain d where d: "hexDigitValue c1 = Some d"
    and p1: "\<not> isWhiteSpace c1" "c1 \<noteq> CHR ''-''" "c1 \<noteq> CHR ''+''"
    by blast
  from hex_char_props [OF assms(2)] have p2: "c2 \<noteq> CHR ''x''" "c2 \<noteq> CHR ''X''"
    by blast+
  from hexDigits_Some [of "16 * 0 + d" "c2 # cs"] obtain n
    where n: "hexDigits (Some (16 * 0 + d)) (c2 # cs) = Some n"
    by blast
  from d n have "hexDigits None (c1 # c2 # cs) = Some n"
    by simp
  with p1 p2 have "parseInt16 (c1 # c2 # cs) = Some (int n)"
    by (simp add: parseInt16_def)
  then show ?thesis by blast
qed

lemma js_rem_range: "0 < m \<Longrightarrow> \<exists>r. js_rem (int n) m = Some r \<and> 0 \<le> r \<and> r < m"
  by (cases "n = 0") (simp_all add: js_rem_def)

text \<open>
  C10. For a digest that is 64 lower-case hexadecimal digits, as Node's SHA-256 digest
  is for every input, \<^verbatim>\<open>int32Hash\<close> returns a number (never \<^verbatim>\<open>NaN\<close>) that is at least 0
  and strictly below \<open>idHash32MaxValue\<close>; and equal inputs give equal results.
\<close>

theorem int32Hash_range:
  assumes "is_sha256_hex (hex_digest ''sha256'' v)"
  shows "(\<exists>n. int32Hash hex_digest v = Some n \<and> 0 \<le> n \<and> n < idHash32MaxValue) \<and>
         (w = v \<longrightarrow> int32Hash hex_digest w = int32Hash hex_digest v)"
proof -
  let ?h = "hex_digest ''sha256'' v"
  from assms have len: "length ?h = 64" and hex: "\<forall>c \<in> set ?h. c \<in> set ''0123456789abcdef''"
    by (simp_all add: is_sha256_hex_def list_all_iff)
  from len obtain c1 c2 cs where h: "?h = c1 # c2 # cs"
    by (cases ?h; cases "tl ?h") auto
  from hex h have c1: "c1 \<in> set ''0123456789abcdef''" and c2: "c2 \<in> set ''0123456789abcdef''"
    by simp_all
  have tk: "take 8 ?h = c1 # c2 # take 6 cs"
    unfolding h by (simp add: numeral_eq_Suc)
  from parseInt16_hex [OF c1 c2, of "take 6 cs"] obtain n
    where n: "parseInt16 (take 8 ?h) = Some (int n)"
    unfolding tk by blast
  from js_rem_range [of idHash32MaxValue n] obtain r
    where r: "js_rem (int n) idHash32MaxValue = Some r" "0 \<le> r" "r < idHash32MaxValue"
    by (auto simp: idHash32MaxValue_def)
  from n r have "int32Hash hex_digest v = Some r"
    by (simp add: int32Hash_def hash_def)
  with r show ?thesis by blast
qed

theorem int32Hash_range_witness:
  "is_sha256_hex (abc_digest ''sha256'' ''abc'') \<and>
   int32Hash abc_digest ''abc'' = Some 980948672 \<and>
   (0::int) \<le> 980948672 \<and> 980948672 < idHash32MaxValue"
proof -
  have h: "is_sha256_hex (abc_digest ''sha256'' ''abc'')"
    by (simp add: is_sha256_hex_def abc_digest_def)
  have e: "int32Hash abc_digest ''abc'' = Some 980948672"
    by (simp add: int32Hash_def hash_def abc_digest_def parseInt16_def isWhiteSpace_def
          hexDigitValue_def js_rem_def idHash32MaxValue_def)
  from int32Hash_range [of abc_digest "''abc''" "''abc''"] h e show ?thesis
    by simp
qed

end
